theory Spec2Isabelle
  imports Complex_Main "HOL-Library.Word" "HOL-Library.AList"
begin

unbundle bit_operations_syntax

section \<open>Data model of comet_engine.py\<close>

text \<open>
  A Python \<open>str\<close> is a sequence of Unicode code points, so it is a list of naturals here
  (a code point is below \<open>0x110000\<close>); \<open>str\<close> turns an ASCII literal into one.
  \<open>not s\<close> on a \<open>str\<close> is \<open>s = []\<close>.
\<close>

type_synonym pystr = "nat list"

definition str :: "string \<Rightarrow> pystr" where
  "str s = map of_char s"

text \<open>
  A Python \<open>float\<close> is an IEEE double: a finite value (an exact rational, here a real),
  an infinity or NaN. Only the comparison \<open>\<le>\<close> of the source is needed; it is exact on
  doubles and false as soon as one side is NaN. The literals \<open>0.0\<close> and \<open>1.0\<close> are exact.
\<close>

datatype pyfloat = Finite real | PosInf | NegInf | NaN

fun float_le :: "pyfloat \<Rightarrow> pyfloat \<Rightarrow> bool" where
  "float_le NaN y = False"
| "float_le x NaN = False"
| "float_le NegInf y = True"
| "float_le x PosInf = True"
| "float_le (Finite x) (Finite y) = (x \<le> y)"
| "float_le PosInf y = False"
| "float_le x NegInf = False"

datatype error = ValueError | UnicodeEncodeError

record VerifiedCitation =
  source_id :: pystr
  content_hash :: pystr
  timestamp :: pystr
  verification_method :: pystr

text \<open>
  The dataclass constructor followed by \<open>__post_init__\<close>: the fields are stored as given,
  then an empty \<open>content_hash\<close> raises \<open>ValueError\<close>.
\<close>

definition VerifiedCitation_init ::
  "pystr \<Rightarrow> pystr \<Rightarrow> pystr \<Rightarrow> pystr \<Rightarrow> error + VerifiedCitation" where
  "VerifiedCitation_init sid chash ts meth =
     (let self = \<lparr>source_id = sid, content_hash = chash, timestamp = ts,
                  verification_method = meth\<rparr>
      in if content_hash self = [] then Inl ValueError else Inr self)"

text \<open>
  \<open>design_implications\<close> is a \<open>Dict[str, Any]\<close> that the engine only passes on: it is a
  value of an arbitrary type \<open>'m\<close> (the reference the caller supplied).
\<close>

record 'm ShortcutNode =
  node_id :: pystr
  pattern :: pystr
  action :: pystr
  confidence :: pyfloat
  verified_citations :: "VerifiedCitation list"
  design_implications :: 'm

definition validate :: "'m ShortcutNode \<Rightarrow> bool" where
  "validate self =
     (if \<not> (float_le (Finite 0) (confidence self) \<and> float_le (confidence self) (Finite 1))
      then False
      else if node_id self = [] \<or> pattern self = [] then False
      else True)"

text \<open>The validation predicate in the words of the specification.\<close>

definition confidence_in_unit_interval :: "pyfloat \<Rightarrow> bool" where
  "confidence_in_unit_interval c =
     (case c of Finite r \<Rightarrow> 0 \<le> r \<and> r \<le> 1 | PosInf \<Rightarrow> False | NegInf \<Rightarrow> False | NaN \<Rightarrow> False)"

definition spec_valid :: "'m ShortcutNode \<Rightarrow> bool" where
  "spec_valid n =
     (node_id n \<noteq> [] \<and> pattern n \<noteq> [] \<and> confidence_in_unit_interval (confidence n))"

section \<open>The digest: UTF-8 encoding, SHA-256, hexadecimal output\<close>

text \<open>
  \<open>content.encode('utf-8')\<close> with the default strict error handler: one to four bytes per
  code point, and \<open>UnicodeEncodeError\<close> on a surrogate code point (\<open>U+D800\<close> to
  \<open>U+DFFF\<close>). \<open>hashlib.sha256\<close> is SHA-256 of FIPS 180-4 on 32-bit words, and
  \<open>hexdigest\<close> writes each byte of the digest as two lowercase hexadecimal digits.
\<close>

type_synonym byte = "8 word"
type_synonym w32 = "32 word"

fun utf8_char :: "nat \<Rightarrow> error + byte list" where
  "utf8_char c =
     (if c < 0x80 then Inr [of_nat c]
      else if c < 0x800 then Inr [of_nat (0xC0 + c div 64), of_nat (0x80 + c mod 64)]
      else if 0xD800 \<le> c \<and> c \<le> 0xDFFF then Inl UnicodeEncodeError
      else if c < 0x10000 then
        Inr [of_nat (0xE0 + c div 4096), of_nat (0x80 + c div 64 mod 64), of_nat (0x80 + c mod 64)]
      else if c < 0x110000 then
        Inr [of_nat (0xF0 + c div 262144), of_nat (0x80 + c div 4096 mod 64),
             of_nat (0x80 + c div 64 mod 64), of_nat (0x80 + c mod 64)]
      else Inl UnicodeEncodeError)"

fun encode_utf8 :: "pystr \<Rightarrow> error + byte list" where
  "encode_utf8 [] = Inr []"
| "encode_utf8 (c # cs) =
     (case utf8_char c of
        Inl e \<Rightarrow> Inl e
      | Inr bs \<Rightarrow> (case encode_utf8 cs of Inl e \<Rightarrow> Inl e | Inr rest \<Rightarrow> Inr (bs @ rest)))"

text \<open>The round constants and the initial hash value of SHA-256.\<close>

definition K256 :: "w32 list" where
  "K256 =
    [0x428A2F98, 0x71374491, 0xB5C0FBCF, 0xE9B5DBA5, 0x3956C25B, 0x59F111F1, 0x923F82A4, 0xAB1C5ED5,
     0xD807AA98, 0x12835B01, 0x243185BE, 0x550C7DC3, 0x72BE5D74, 0x80DEB1FE, 0x9BDC06A7, 0xC19BF174,
     0xE49B69C1, 0xEFBE4786, 0x0FC19DC6, 0x240CA1CC, 0x2DE92C6F, 0x4A7484AA, 0x5CB0A9DC, 0x76F988DA,
     0x983E5152, 0xA831C66D, 0xB00327C8, 0xBF597FC7, 0xC6E00BF3, 0xD5A79147, 0x06CA6351, 0x14292967,
     0x27B70A85, 0x2E1B2138, 0x4D2C6DFC, 0x53380D13, 0x650A7354, 0x766A0ABB, 0x81C2C92E, 0x92722C85,
     0xA2BFE8A1, 0xA81A664B, 0xC24B8B70, 0xC76C51A3, 0xD192E819, 0xD6990624, 0xF40E3585, 0x106AA070,
     0x19A4C116, 0x1E376C08, 0x2748774C, 0x34B0BCB5, 0x391C0CB3, 0x4ED8AA4A, 0x5B9CCA4F, 0x682E6FF3,
     0x748F82EE, 0x78A5636F, 0x84C87814, 0x8CC70208, 0x90BEFFFA, 0xA4506CEB, 0xBEF9A3F7, 0xC67178F2]"

type_synonym hstate = "w32 \<times> w32 \<times> w32 \<times> w32 \<times> w32 \<times> w32 \<times> w32 \<times> w32"

definition H256 :: hstate where
  "H256 = (0x6A09E667, 0xBB67AE85, 0x3C6EF372, 0xA54FF53A,
           0x510E527F, 0x9B05688C, 0x1F83D9AB, 0x5BE0CD19)"

text \<open>Right rotation of a 32-bit word and the six logical functions.\<close>

definition rotr :: "nat \<Rightarrow> w32 \<Rightarrow> w32" where
  "rotr n x = drop_bit n x OR push_bit (32 - n) x"

definition Ch :: "w32 \<Rightarrow> w32 \<Rightarrow> w32 \<Rightarrow> w32" where
  "Ch x y z = (x AND y) XOR (NOT x AND z)"

definition Maj :: "w32 \<Rightarrow> w32 \<Rightarrow> w32 \<Rightarrow> w32" where
  "Maj x y z = (x AND y) XOR (x AND z) XOR (y AND z)"

definition bsig0 :: "w32 \<Rightarrow> w32" where
  "bsig0 x = rotr 2 x XOR rotr 13 x XOR rotr 22 x"

definition bsig1 :: "w32 \<Rightarrow> w32" where
  "bsig1 x = rotr 6 x XOR rotr 11 x XOR rotr 25 x"

definition ssig0 :: "w32 \<Rightarrow> w32" where
  "ssig0 x = rotr 7 x XOR rotr 18 x XOR drop_bit 3 x"

definition ssig1 :: "w32 \<Rightarrow> w32" where
  "ssig1 x = rotr 17 x XOR rotr 19 x XOR drop_bit 10 x"

text \<open>
  Big-endian bytes of a word; the padding (a \<open>0x80\<close> byte, zero bytes up to 56 modulo 64,
  the bit length in 64 bits) and the split into 64-byte blocks.
\<close>

definition be64 :: "64 word \<Rightarrow> byte list" where
  "be64 w = map (\<lambda>i. ucast (drop_bit (8 * i) w)) [7, 6, 5, 4, 3, 2, 1, 0]"

definition be32 :: "w32 \<Rightarrow> byte list" where
  "be32 w = map (\<lambda>i. ucast (drop_bit (8 * i) w)) [3, 2, 1, 0]"

definition pad :: "byte list \<Rightarrow> byte list" where
  "pad m = m @ [0x80] @ replicate ((119 - length m mod 64) mod 64) 0
             @ be64 (of_nat (8 * length m))"

definition blocks :: "byte list \<Rightarrow> byte list list" where
  "blocks bs = map (\<lambda>i. take 64 (drop (64 * i) bs)) [0 ..< length bs div 64]"

text \<open>The message schedule of a block and the compression of a block into the hash value.\<close>

definition word_at :: "byte list \<Rightarrow> nat \<Rightarrow> w32" where
  "word_at b i =
     push_bit 24 (ucast (b ! (4 * i))) OR push_bit 16 (ucast (b ! (4 * i + 1)))
       OR push_bit 8 (ucast (b ! (4 * i + 2))) OR ucast (b ! (4 * i + 3))"

fun extend :: "nat \<Rightarrow> w32 list \<Rightarrow> w32 list" where
  "extend 0 ws = ws"
| "extend (Suc n) ws =
     (let t = length ws
      in extend n (ws @ [ssig1 (ws ! (t - 2)) + ws ! (t - 7) + ssig0 (ws ! (t - 15)) + ws ! (t - 16)]))"

definition schedule :: "byte list \<Rightarrow> w32 list" where
  "schedule b = extend 48 (map (word_at b) [0 ..< 16])"

fun round :: "hstate \<Rightarrow> w32 \<times> w32 \<Rightarrow> hstate" where
  "round (a, b, c, d, e, f, g, h) (k, w) =
     (let t1 = h + bsig1 e + Ch e f g + k + w;
          t2 = bsig0 a + Maj a b c
      in (t1 + t2, a, b, c, d + t1, e, f, g))"

fun add_state :: "hstate \<Rightarrow> hstate \<Rightarrow> hstate" where
  "add_state (a, b, c, d, e, f, g, h) (a', b', c', d', e', f', g', h') =
     (a + a', b + b', c + c', d + d', e + e', f + f', g + g', h + h')"

definition compress :: "hstate \<Rightarrow> byte list \<Rightarrow> hstate" where
  "compress hs b = add_state hs (foldl round hs (zip K256 (schedule b)))"

fun digest_bytes :: "hstate \<Rightarrow> byte list" where
  "digest_bytes (a, b, c, d, e, f, g, h) =
     be32 a @ be32 b @ be32 c @ be32 d @ be32 e @ be32 f @ be32 g @ be32 h"

definition sha256 :: "byte list \<Rightarrow> byte list" where
  "sha256 m = digest_bytes (foldl compress H256 (blocks (pad m)))"

text \<open>\<open>hexdigest\<close>: two digits per byte, \<open>0\<close> to \<open>9\<close> and \<open>a\<close> to \<open>f\<close>.\<close>

definition hexdigit :: "nat \<Rightarrow> nat" where
  "hexdigit n = (if n < 10 then 48 + n else 87 + n)"

definition hex_byte :: "byte \<Rightarrow> pystr" where
  "hex_byte b = [hexdigit (unat b div 16), hexdigit (unat b mod 16)]"

definition hexdigest :: "byte list \<Rightarrow> pystr" where
  "hexdigest bs = concat (map hex_byte bs)"

text \<open>\<open>hashlib.sha256(content.encode('utf-8')).hexdigest()\<close>, as both callers write it.\<close>

definition sha256_hex :: "pystr \<Rightarrow> error + pystr" where
  "sha256_hex content =
     (case encode_utf8 content of Inl e \<Rightarrow> Inl e | Inr bs \<Rightarrow> Inr (hexdigest (sha256 bs)))"

section \<open>Objects in the store\<close>

text \<open>
  \<open>execute_shortcut\<close> builds a dict and both appends it to the log and returns it, and
  \<open>get_execution_log\<close> returns a new list object holding the same entries. Lists and
  result dicts are therefore objects in a store, named by references: a list object holds
  references to its entries. \<open>next_ref\<close> is the next unused address.
  The \<open>context\<close> argument is a value of an arbitrary type \<open>'c\<close>, passed on as it is.
\<close>

type_synonym ref = nat

record FlatCitation =
  flat_source_id :: pystr
  flat_content_hash :: pystr
  flat_verification_method :: pystr

record ('m, 'c) ExecutionRecord =
  rec_node_id :: pystr
  rec_action :: pystr
  rec_confidence :: pyfloat
  rec_timestamp :: pystr
  rec_verified_citations :: "FlatCitation list"
  rec_design_implications :: 'm
  rec_context :: 'c

record ('m, 'c) store =
  dicts :: "ref \<rightharpoonup> ('m, 'c) ExecutionRecord"
  lists :: "ref \<Rightarrow> ref list"
  next_ref :: ref

text \<open>What a caller can do to a list object it holds: any change of its contents.\<close>

definition list_assign :: "ref \<Rightarrow> ref list \<Rightarrow> ('m, 'c) store \<Rightarrow> ('m, 'c) store" where
  "list_assign r xs s = s\<lparr>lists := (lists s)(r := xs)\<rparr>"

definition list_append :: "ref \<Rightarrow> ref \<Rightarrow> ('m, 'c) store \<Rightarrow> ('m, 'c) store" where
  "list_append r x s = list_assign r (lists s r @ [x]) s"

text \<open>In-place change of a result dict, as in \<open>log[0]["action"] = ...\<close>.\<close>

definition dict_assign ::
  "ref \<Rightarrow> ('m, 'c) ExecutionRecord \<Rightarrow> ('m, 'c) store \<Rightarrow> ('m, 'c) store" where
  "dict_assign r d s = s\<lparr>dicts := (dicts s)(r \<mapsto> d)\<rparr>"

section \<open>The engine\<close>

text \<open>
  \<open>self.shortcuts\<close> is a Python dict: an association list in insertion order, where
  assigning to an existing key replaces the value in place and a new key goes to the end
  (\<open>AList.update\<close>). \<open>self.execution_log\<close> is a reference to a list object in the store.
\<close>

record 'm CometEngine =
  shortcuts :: "(pystr \<times> 'm ShortcutNode) list"
  execution_log :: ref
  schema_version :: pystr

definition CometEngine_init :: "('m, 'c) store \<Rightarrow> 'm CometEngine \<times> ('m, 'c) store" where
  "CometEngine_init s =
     (let l = next_ref s
      in (\<lparr>shortcuts = [], execution_log = l, schema_version = str ''1.0.0''\<rparr>,
          s\<lparr>lists := (lists s)(l := []), next_ref := Suc l\<rparr>))"

definition register_shortcut ::
  "'m CometEngine \<Rightarrow> 'm ShortcutNode \<Rightarrow> bool \<times> 'm CometEngine" where
  "register_shortcut self node =
     (if \<not> validate node then (False, self)
      else (True, self\<lparr>shortcuts := AList.update (node_id node) node (shortcuts self)\<rparr>))"

definition flatten :: "VerifiedCitation \<Rightarrow> FlatCitation" where
  "flatten cit =
     \<lparr>flat_source_id = source_id cit, flat_content_hash = content_hash cit,
      flat_verification_method = verification_method cit\<rparr>"

text \<open>
  \<open>now\<close> is what \<open>datetime.utcnow().isoformat()\<close> returns during the call. The result is
  the reference of the new dict, or \<open>None\<close>.
\<close>

definition execute_shortcut ::
  "'m CometEngine \<Rightarrow> pystr \<Rightarrow> 'c \<Rightarrow> pystr \<Rightarrow> ('m, 'c) store \<Rightarrow> ref option \<times> ('m, 'c) store" where
  "execute_shortcut self nid context now s =
     (case map_of (shortcuts self) nid of
        None \<Rightarrow> (None, s)
      | Some node \<Rightarrow>
          (let result =
                 \<lparr>rec_node_id = nid,
                  rec_action = action node,
                  rec_confidence = confidence node,
                  rec_timestamp = now,
                  rec_verified_citations = map flatten (verified_citations node),
                  rec_design_implications = design_implications node,
                  rec_context = context\<rparr>;
               r = next_ref s;
               s1 = s\<lparr>dicts := (dicts s)(r \<mapsto> result), next_ref := Suc r\<rparr>;
               l = execution_log self;
               s2 = s1\<lparr>lists := (lists s1)(l := lists s1 l @ [r])\<rparr>
           in (Some r, s2)))"

definition generate_content_hash :: "'m CometEngine \<Rightarrow> pystr \<Rightarrow> error + pystr" where
  "generate_content_hash self content = sha256_hex content"

record 'm ShortcutView =
  view_pattern :: pystr
  view_action :: pystr
  view_confidence :: pyfloat
  view_verified_citations :: nat
  view_design_implications :: 'm

record 'm Schema =
  exp_schema_version :: pystr
  exp_shortcuts :: "(pystr \<times> 'm ShortcutView) list"
  total_executions :: nat

definition view :: "'m ShortcutNode \<Rightarrow> 'm ShortcutView" where
  "view node =
     \<lparr>view_pattern = pattern node,
      view_action = action node,
      view_confidence = confidence node,
      view_verified_citations = length (verified_citations node),
      view_design_implications = design_implications node\<rparr>"

definition export_schema :: "'m CometEngine \<Rightarrow> ('m, 'c) store \<Rightarrow> 'm Schema" where
  "export_schema self s =
     \<lparr>exp_schema_version = schema_version self,
      exp_shortcuts = map (\<lambda>(nid, node). (nid, view node)) (shortcuts self),
      total_executions = length (lists s (execution_log self))\<rparr>"

text \<open>\<open>self.execution_log.copy()\<close>: a new list object with the same entries.\<close>

definition get_execution_log :: "'m CometEngine \<Rightarrow> ('m, 'c) store \<Rightarrow> ref \<times> ('m, 'c) store" where
  "get_execution_log self s =
     (let r = next_ref s
      in (r, s\<lparr>lists := (lists s)(r := lists s (execution_log self)), next_ref := Suc r\<rparr>))"

text \<open>
  The helper \<open>create_citation\<close>; \<open>None\<close> for the method is the call that leaves the
  keyword at its default, \<open>now\<close> is the clock reading.
\<close>

definition create_citation ::
  "pystr \<Rightarrow> pystr \<Rightarrow> pystr option \<Rightarrow> pystr \<Rightarrow> error + VerifiedCitation" where
  "create_citation sid content meth now =
     (case sha256_hex content of
        Inl e \<Rightarrow> Inl e
      | Inr chash \<Rightarrow>
          VerifiedCitation_init sid chash now
            (case meth of None \<Rightarrow> str ''sha256'' | Some m \<Rightarrow> m))"

section \<open>Sequences of calls on one engine\<close>

datatype ('m, 'c) call =
    Register_shortcut "'m ShortcutNode"
  | Execute_shortcut pystr 'c pystr
  | Export_schema
  | Get_execution_log

datatype 'm reply =
    Registered bool
  | Executed "ref option"
  | Exported "'m Schema"
  | Logged ref

fun step ::
  "('m, 'c) call \<Rightarrow> 'm CometEngine \<times> ('m, 'c) store
     \<Rightarrow> 'm reply \<times> 'm CometEngine \<times> ('m, 'c) store" where
  "step (Register_shortcut node) (self, s) =
     (case register_shortcut self node of (b, self') \<Rightarrow> (Registered b, self', s))"
| "step (Execute_shortcut nid context now) (self, s) =
     (case execute_shortcut self nid context now s of (res, s') \<Rightarrow> (Executed res, self, s'))"
| "step Export_schema (self, s) = (Exported (export_schema self s), self, s)"
| "step Get_execution_log (self, s) =
     (case get_execution_log self s of (r, s') \<Rightarrow> (Logged r, self, s'))"

fun run ::
  "('m, 'c) call list \<Rightarrow> 'm CometEngine \<times> ('m, 'c) store
     \<Rightarrow> 'm reply list \<times> 'm CometEngine \<times> ('m, 'c) store" where
  "run [] st = ([], st)"
| "run (c # cs) st =
     (case step c st of (rep, st') \<Rightarrow> (case run cs st' of (reps, st'') \<Rightarrow> (rep # reps, st'')))"

fun succeeded :: "'m reply \<Rightarrow> bool" where
  "succeeded (Executed (Some r)) = True"
| "succeeded rep = False"

section \<open>The specification's words\<close>

text \<open>
  The execution record as the specification describes it: the shortcut's id, action and
  confidence, the timestamp of the call, the citations reduced to source id, digest and
  method, the metadata bag and the caller's context.
\<close>

definition expected_record ::
  "'m ShortcutNode \<Rightarrow> pystr \<Rightarrow> 'c \<Rightarrow> pystr \<Rightarrow> ('m, 'c) ExecutionRecord" where
  "expected_record node nid context now =
     \<lparr>rec_node_id = nid,
      rec_action = action node,
      rec_confidence = confidence node,
      rec_timestamp = now,
      rec_verified_citations =
        map (\<lambda>cit. \<lparr>flat_source_id = source_id cit, flat_content_hash = content_hash cit,
                     flat_verification_method = verification_method cit\<rparr>)
            (verified_citations node),
      rec_design_implications = design_implications node,
      rec_context = context\<rparr>"

text \<open>Sequential \<open>execute_shortcut\<close> calls on one engine, each with its own clock reading.\<close>

fun execute_all ::
  "'m CometEngine \<Rightarrow> (pystr \<times> 'c \<times> pystr) list \<Rightarrow> ('m, 'c) store
     \<Rightarrow> ref option list \<times> ('m, 'c) store" where
  "execute_all self [] s = ([], s)"
| "execute_all self ((nid, context, now) # cs) s =
     (case execute_shortcut self nid context now s of
        (res, s') \<Rightarrow> (case execute_all self cs s' of (ress, s'') \<Rightarrow> (res # ress, s'')))"

text \<open>What the specification expects of one such call, and that its id is a key.\<close>

definition expected_of :: "'m CometEngine \<Rightarrow> pystr \<times> 'c \<times> pystr \<Rightarrow> ('m, 'c) ExecutionRecord option" where
  "expected_of self c =
     (case c of (nid, context, now) \<Rightarrow>
        map_option (\<lambda>node. expected_record node nid context now) (map_of (shortcuts self) nid))"

definition registered :: "'m CometEngine \<Rightarrow> pystr \<times> 'c \<times> pystr \<Rightarrow> bool" where
  "registered self c = (map_of (shortcuts self) (fst c) \<noteq> None)"

text \<open>Well-formed text: every code point is a Unicode scalar value (no surrogate).\<close>

definition surrogate :: "nat \<Rightarrow> bool" where
  "surrogate c = (0xD800 \<le> c \<and> c \<le> 0xDFFF)"

definition well_formed_text :: "pystr \<Rightarrow> bool" where
  "well_formed_text content = list_all (\<lambda>c. c < 0x110000 \<and> \<not> surrogate c) content"

definition lower_hex :: "nat \<Rightarrow> bool" where
  "lower_hex c = (c \<in> set (str ''0123456789abcdef''))"

section \<open>Concrete engines and inputs\<close>

definition store0 :: "(unit, nat) store" where
  "store0 = \<lparr>dicts = Map.empty, lists = (\<lambda>r. []), next_ref = 0\<rparr>"

definition node_a :: "unit ShortcutNode" where
  "node_a =
     \<lparr>node_id = str ''a'', pattern = str ''p'', action = str ''act'',
      confidence = Finite (9 / 10),
      verified_citations =
        [\<lparr>source_id = str ''doc_1'', content_hash = str ''ab'', timestamp = str ''t0'',
          verification_method = str ''sha256''\<rparr>],
      design_implications = ()\<rparr>"

definition node_bad :: "unit ShortcutNode" where
  "node_bad = node_a\<lparr>node_id := [], confidence := Finite 2\<rparr>"

definition engine0 :: "unit CometEngine" where
  "engine0 = fst (CometEngine_init store0)"

definition store1 :: "(unit, nat) store" where
  "store1 = snd (CometEngine_init store0)"

definition engine1 :: "unit CometEngine" where
  "engine1 = snd (register_shortcut engine0 node_a)"

definition calls3 :: "(pystr \<times> nat \<times> pystr) list" where
  "calls3 = [(str ''a'', 1, str ''t1''), (str ''a'', 2, str ''t2''), (str ''a'', 3, str ''t3'')]"

definition calls_mixed :: "(unit, nat) call list" where
  "calls_mixed =
     [Register_shortcut node_a, Execute_shortcut (str ''a'') 1 (str ''t1''),
      Execute_shortcut (str ''missing'') 2 (str ''t2''), Register_shortcut node_bad,
      Get_execution_log, Export_schema]"

definition calls_two :: "(unit, nat) call list" where
  "calls_two = [Register_shortcut node_a, Execute_shortcut (str ''a'') 1 (str ''t1'')]"

section \<open>Validation\<close>

lemma validate_spec_valid: "validate n = spec_valid n"
  by (cases "confidence n")
     (auto simp: validate_def spec_valid_def confidence_in_unit_interval_def)

section \<open>Evaluation of the concrete engines\<close>

lemma str_a: "str ''a'' = [97]"
  by (simp add: str_def)

lemma node_a_valid: "spec_valid node_a"
  by (simp add: spec_valid_def confidence_in_unit_interval_def node_a_def str_def)

lemma node_bad_invalid: "\<not> spec_valid node_bad"
  by (simp add: spec_valid_def node_bad_def)

lemma engine0_eval:
  "engine0 = \<lparr>shortcuts = [], execution_log = 0, schema_version = str ''1.0.0''\<rparr>"
  by (simp add: engine0_def CometEngine_init_def store0_def)

lemma store1_eval: "store1 = \<lparr>dicts = Map.empty, lists = (\<lambda>r. []), next_ref = 1\<rparr>"
  by (simp add: store1_def CometEngine_init_def store0_def fun_eq_iff)

lemma engine1_eval:
  "engine1 = \<lparr>shortcuts = [([97], node_a)], execution_log = 0, schema_version = str ''1.0.0''\<rparr>"
  using node_a_valid
  by (simp add: engine1_def engine0_eval register_shortcut_def validate_spec_valid node_a_def str_a)

section \<open>Registration\<close>

text \<open>
  C1. \<open>register_shortcut\<close> returns true exactly when the node passes the validation
  predicate of the specification (non-empty id, non-empty pattern, confidence in the closed
  interval from 0.0 to 1.0). On failure it returns false and the engine is the one before the
  call. On success the registry maps the node's id to the node, replacing any earlier entry,
  and every other key as before; the log reference and the schema version are untouched.
  The confidences 0.0 and 1.0 pass.
\<close>

theorem register_shortcut_iff_valid:
  "fst (register_shortcut self node) = spec_valid node
   \<and> (\<not> spec_valid node \<longrightarrow> register_shortcut self node = (False, self))
   \<and> (spec_valid node \<longrightarrow>
        map_of (shortcuts (snd (register_shortcut self node)))
          = (map_of (shortcuts self))(node_id node \<mapsto> node)
        \<and> execution_log (snd (register_shortcut self node)) = execution_log self
        \<and> schema_version (snd (register_shortcut self node)) = schema_version self)
   \<and> spec_valid (node\<lparr>confidence := Finite 0\<rparr>) = (node_id node \<noteq> [] \<and> pattern node \<noteq> [])
   \<and> spec_valid (node\<lparr>confidence := Finite 1\<rparr>) = (node_id node \<noteq> [] \<and> pattern node \<noteq> [])"
  by (simp add: register_shortcut_def validate_spec_valid update_conv'
        spec_valid_def confidence_in_unit_interval_def)

theorem register_shortcut_iff_valid_witness:
  "spec_valid node_a \<and> \<not> spec_valid node_bad
   \<and> fst (register_shortcut engine1 (node_a\<lparr>action := str ''other''\<rparr>)) = True
   \<and> map_of (shortcuts (snd (register_shortcut engine1 (node_a\<lparr>action := str ''other''\<rparr>))))
        (str ''a'') = Some (node_a\<lparr>action := str ''other''\<rparr>)
   \<and> register_shortcut engine1 node_bad = (False, engine1)"
proof -
  have v: "spec_valid (node_a\<lparr>action := str ''other''\<rparr>)"
    using node_a_valid by (simp add: spec_valid_def)
  have id: "node_id (node_a\<lparr>action := str ''other''\<rparr>) = str ''a''"
    by (simp add: node_a_def)
  show ?thesis
    using register_shortcut_iff_valid [of engine1 "node_a\<lparr>action := str ''other''\<rparr>"]
      register_shortcut_iff_valid [of engine1 node_bad] v id node_a_valid node_bad_invalid
    by simp
qed

text \<open>
  C10. Validation does not read the action: changing the action of a node never changes the
  verdict, and a node with non-empty id and pattern and a confidence in the unit interval is
  registered, and stored under its id, with the empty string as its action.
\<close>

theorem register_shortcut_ignores_action:
  assumes "node_id node \<noteq> []" and "pattern node \<noteq> []"
      and "confidence_in_unit_interval (confidence node)"
  shows "validate (node\<lparr>action := a\<rparr>) = validate node
       \<and> register_shortcut self (node\<lparr>action := []\<rparr>)
           = (True, self\<lparr>shortcuts :=
                 AList.update (node_id node) (node\<lparr>action := []\<rparr>) (shortcuts self)\<rparr>)
       \<and> map_of (shortcuts (snd (register_shortcut self (node\<lparr>action := []\<rparr>)))) (node_id node)
           = Some (node\<lparr>action := []\<rparr>)"
  using assms
  by (simp add: register_shortcut_def validate_spec_valid spec_valid_def update_conv')

theorem register_shortcut_ignores_action_witness:
  "node_id node_a \<noteq> [] \<and> pattern node_a \<noteq> []
   \<and> confidence_in_unit_interval (confidence node_a)
   \<and> fst (register_shortcut engine0 (node_a\<lparr>action := []\<rparr>)) = True
   \<and> map_of (shortcuts (snd (register_shortcut engine0 (node_a\<lparr>action := []\<rparr>)))) (str ''a'')
        = Some (node_a\<lparr>action := []\<rparr>)"
proof -
  have h: "node_id node_a \<noteq> []" "pattern node_a \<noteq> []"
    "confidence_in_unit_interval (confidence node_a)"
    using node_a_valid by (simp_all add: spec_valid_def)
  have id: "node_id node_a = str ''a''" by (simp add: node_a_def)
  show ?thesis
    using register_shortcut_ignores_action [OF h, where self = engine0 and a = "[]"] h id
    by (simp add: update_conv')
qed

section \<open>Citations\<close>

text \<open>
  C8. Constructing a citation with an empty content hash fails with \<open>ValueError\<close>; with a
  non-empty one it succeeds, and the four fields of the citation are the four arguments.
\<close>

theorem VerifiedCitation_init_result:
  "(chash = [] \<longrightarrow> VerifiedCitation_init sid chash ts meth = Inl ValueError)
   \<and> (chash \<noteq> [] \<longrightarrow>
        (\<exists>cit. VerifiedCitation_init sid chash ts meth = Inr cit
           \<and> source_id cit = sid \<and> content_hash cit = chash
           \<and> timestamp cit = ts \<and> verification_method cit = meth))"
  by (simp add: VerifiedCitation_init_def)

theorem VerifiedCitation_init_result_witness:
  "VerifiedCitation_init (str ''test'') [] (str ''2025-01-01T00:00:00'') (str ''sha256'')
     = Inl ValueError
   \<and> str ''ab'' \<noteq> []
   \<and> VerifiedCitation_init (str ''test'') (str ''ab'') (str ''2025-01-01T00:00:00'') (str ''sha256'')
       = Inr \<lparr>source_id = str ''test'', content_hash = str ''ab'',
              timestamp = str ''2025-01-01T00:00:00'', verification_method = str ''sha256''\<rparr>"
proof -
  have ne: "str ''ab'' \<noteq> []" by (simp add: str_def)
  show ?thesis
    using VerifiedCitation_init_result
            [of "[]" "str ''test''" "str ''2025-01-01T00:00:00''" "str ''sha256''"]
          VerifiedCitation_init_result
            [of "str ''ab''" "str ''test''" "str ''2025-01-01T00:00:00''" "str ''sha256''"] ne
    by auto
qed

section \<open>Execution\<close>

lemma execute_shortcut_found:
  assumes "map_of (shortcuts self) nid = Some node"
  shows "execute_shortcut self nid context now s =
           (Some (next_ref s),
            s\<lparr>dicts := (dicts s)(next_ref s \<mapsto> expected_record node nid context now),
              next_ref := Suc (next_ref s),
              lists := (lists s)(execution_log self := lists s (execution_log self) @ [next_ref s])\<rparr>)"
  using assms by (simp add: execute_shortcut_def expected_record_def flatten_def [abs_def] Let_def)

lemma execute_all_registered:
  assumes "list_all (registered self) cs"
  shows "fst (execute_all self cs s) = map Some [next_ref s ..< next_ref s + length cs]
       \<and> lists (snd (execute_all self cs s)) (execution_log self)
           = lists s (execution_log self) @ [next_ref s ..< next_ref s + length cs]
       \<and> next_ref (snd (execute_all self cs s)) = next_ref s + length cs
       \<and> map (dicts (snd (execute_all self cs s))) [next_ref s ..< next_ref s + length cs]
           = map (expected_of self) cs
       \<and> (\<forall>r < next_ref s. dicts (snd (execute_all self cs s)) r = dicts s r)"
  using assms
proof (induction cs arbitrary: s)
  case Nil
  then show ?case by simp
next
  case (Cons c cs)
  obtain nid ctx now where c: "c = (nid, ctx, now)" by (cases c) auto
  from Cons.prems obtain node where node: "map_of (shortcuts self) nid = Some node"
    by (auto simp: c registered_def)
  define s1 where "s1 = snd (execute_shortcut self nid ctx now s)"
  have ex: "execute_shortcut self nid ctx now s = (Some (next_ref s), s1)"
    unfolding s1_def by (simp add: execute_shortcut_found [OF node])
  have s1: "next_ref s1 = Suc (next_ref s)"
     "lists s1 (execution_log self) = lists s (execution_log self) @ [next_ref s]"
     "dicts s1 = (dicts s)(next_ref s \<mapsto> expected_record node nid ctx now)"
    unfolding s1_def by (simp_all add: execute_shortcut_found [OF node])
  from Cons.prems have "list_all (registered self) cs" by simp
  note IH = Cons.IH [OF this, of s1]
  have all: "execute_all self (c # cs) s =
      (Some (next_ref s) # fst (execute_all self cs s1), snd (execute_all self cs s1))"
    by (simp add: c ex split: prod.splits)
  have up: "[next_ref s ..< next_ref s + length (c # cs)]
      = next_ref s # [Suc (next_ref s) ..< Suc (next_ref s) + length cs]"
  proof -
    have "[next_ref s ..< Suc (next_ref s) + length cs]
        = next_ref s # [Suc (next_ref s) ..< Suc (next_ref s) + length cs]"
      by (rule upt_conv_Cons) simp
    then show ?thesis by simp
  qed
  have d0: "dicts (snd (execute_all self cs s1)) (next_ref s) = expected_of self c"
    using IH by (simp add: s1 c expected_of_def node)
  show ?case
    unfolding all up using IH d0 by (simp add: s1)
qed

text \<open>
  C2. When the id is a key of the registry, \<open>execute_shortcut\<close> returns a new dict that holds
  the id, the node's action and confidence, the clock reading of the call, the citations
  reduced to source id, digest and method, the node's metadata and the context given; the log
  is the old log with the returned reference appended, so one entry longer. A sequence of
  such calls returns one reference per call, appends them to the log in call order, the log
  grows by the number of calls, and the i-th returned dict is the record of the i-th call.
\<close>

theorem execute_shortcut_registered:
  assumes "map_of (shortcuts self) nid = Some node"
      and "list_all (registered self) cs"
  shows "fst (execute_shortcut self nid context now s) = Some (next_ref s)
       \<and> dicts (snd (execute_shortcut self nid context now s)) (next_ref s)
           = Some (expected_record node nid context now)
       \<and> lists (snd (execute_shortcut self nid context now s)) (execution_log self)
           = lists s (execution_log self) @ [next_ref s]
       \<and> length (lists (snd (execute_shortcut self nid context now s)) (execution_log self))
           = Suc (length (lists s (execution_log self)))
       \<and> fst (execute_all self cs s) = map Some [next_ref s ..< next_ref s + length cs]
       \<and> lists (snd (execute_all self cs s)) (execution_log self)
           = lists s (execution_log self) @ [next_ref s ..< next_ref s + length cs]
       \<and> length (lists (snd (execute_all self cs s)) (execution_log self))
           = length (lists s (execution_log self)) + length cs
       \<and> map (dicts (snd (execute_all self cs s))) [next_ref s ..< next_ref s + length cs]
           = map (expected_of self) cs"
  using execute_all_registered [OF assms(2), of s]
  by (simp add: execute_shortcut_found [OF assms(1)])

lemma calls3_registered: "list_all (registered engine1) calls3"
  by (simp add: registered_def calls3_def engine1_eval str_a)

theorem execute_shortcut_registered_witness:
  "map_of (shortcuts engine1) (str ''a'') = Some node_a
   \<and> list_all (registered engine1) calls3
   \<and> fst (execute_shortcut engine1 (str ''a'') (7::nat) (str ''t1'') store1) = Some 1
   \<and> map_option rec_context
        (dicts (snd (execute_shortcut engine1 (str ''a'') (7::nat) (str ''t1'') store1)) 1) = Some 7
   \<and> fst (execute_all engine1 calls3 store1) = [Some 1, Some 2, Some 3]
   \<and> lists (snd (execute_all engine1 calls3 store1)) (execution_log engine1) = [1, 2, 3]
   \<and> map (map_option rec_context \<circ> dicts (snd (execute_all engine1 calls3 store1))) [1, 2, 3]
        = [Some 1, Some 2, Some 3]"
proof -
  let ?S = "snd (execute_all engine1 calls3 store1)"
  have h: "map_of (shortcuts engine1) (str ''a'') = Some node_a"
    by (simp add: engine1_eval str_a)
  have ev: "next_ref store1 = 1" "lists store1 (execution_log engine1) = []" "length calls3 = 3"
    by (simp_all add: store1_eval engine1_eval calls3_def)
  have up: "[1 ..< 4] = [1, 2, 3::nat]" "[Suc 0 ..< 4] = [1, 2, 3::nat]"
    by (simp_all add: upt_rec)
  have e: "map (map_option rec_context) (map (expected_of engine1) calls3)
             = [Some 1, Some 2, Some 3]"
    by (simp add: calls3_def expected_of_def expected_record_def engine1_eval str_a)
  note t = execute_shortcut_registered [OF h calls3_registered, of 7 "str ''t1''" store1]
  from t have one: "fst (execute_shortcut engine1 (str ''a'') (7::nat) (str ''t1'') store1) = Some 1"
    "dicts (snd (execute_shortcut engine1 (str ''a'') (7::nat) (str ''t1'') store1)) 1
       = Some (expected_record node_a (str ''a'') 7 (str ''t1''))"
    by (simp_all add: ev)
  from t have many: "fst (execute_all engine1 calls3 store1) = [Some 1, Some 2, Some 3]"
    "lists ?S (execution_log engine1) = [1, 2, 3]"
    "map (dicts ?S) [1, 2, 3] = map (expected_of engine1) calls3"
    by (simp_all add: ev up)
  have "map (map_option rec_context \<circ> dicts ?S) [1, 2, 3]
          = map (map_option rec_context) (map (dicts ?S) [1, 2, 3])"
    by simp
  also have "\<dots> = [Some 1, Some 2, Some 3]"
    by (simp only: many(3) e)
  finally have ctx: "map (map_option rec_context \<circ> dicts ?S) [1, 2, 3] = [Some 1, Some 2, Some 3]" .
  have c7: "map_option rec_context
        (dicts (snd (execute_shortcut engine1 (str ''a'') (7::nat) (str ''t1'') store1)) 1) = Some 7"
    using one(2) by (simp add: expected_record_def)
  from h calls3_registered one(1) c7 many(1,2) ctx show ?thesis
    by blast
qed

text \<open>
  C3. When the id is not a key of the registry, \<open>execute_shortcut\<close> returns \<open>None\<close> and the
  store is the one before the call: nothing is appended to the log; the engine, and with it
  the registry, is unchanged as well.
\<close>

theorem execute_shortcut_not_found:
  assumes "map_of (shortcuts self) nid = None"
  shows "execute_shortcut self nid context now s = (None, s)
         \<and> step (Execute_shortcut nid context now) (self, s) = (Executed None, self, s)"
  using assms by (simp add: execute_shortcut_def)

theorem execute_shortcut_not_found_witness:
  "map_of (shortcuts engine1) (str ''missing'') = None
   \<and> execute_shortcut engine1 (str ''missing'') (0::nat) (str ''t'') store1 = (None, store1)
   \<and> step (Execute_shortcut (str ''missing'') (0::nat) (str ''t'')) (engine1, store1)
       = (Executed None, engine1, store1)"
proof -
  have h: "map_of (shortcuts engine1) (str ''missing'') = None"
    by (simp add: engine1_eval str_def)
  from execute_shortcut_not_found [OF h, of 0 "str ''t''" store1] h show ?thesis
    by simp
qed

section \<open>Sequences of calls\<close>

lemma list_all_update:
  assumes "list_all P al" and "P (k, v)"
  shows "list_all P (AList.update k v al)"
  using assms by (induction al) auto

lemma run_Cons: "snd (run (c # cs) st) = snd (run cs (snd (step c st)))"
  by (simp split: prod.splits)

lemma step_stored_valid:
  assumes "list_all (\<lambda>(k, n). spec_valid n) (shortcuts self)"
  shows "list_all (\<lambda>(k, n). spec_valid n) (shortcuts (fst (snd (step c (self, s)))))"
  using assms
  by (cases c)
     (auto simp: register_shortcut_def validate_spec_valid list_all_update split: prod.splits)

lemma run_stored_valid:
  assumes "list_all (\<lambda>(k, n). spec_valid n) (shortcuts self)"
  shows "list_all (\<lambda>(k, n). spec_valid n) (shortcuts (fst (snd (run cs (self, s)))))"
  using assms
proof (induction cs arbitrary: self s)
  case Nil
  then show ?case by simp
next
  case (Cons c cs)
  obtain self' s' where st: "snd (step c (self, s)) = (self', s')"
    by (cases "snd (step c (self, s))") auto
  from step_stored_valid [OF Cons.prems, of c s] st
  have "list_all (\<lambda>(k, n). spec_valid n) (shortcuts self')" by simp
  from Cons.IH [OF this, of s'] show ?case
    by (simp only: run_Cons st)
qed

text \<open>
  C4. After any sequence of \<open>register_shortcut\<close>, \<open>execute_shortcut\<close>, \<open>export_schema\<close> and
  \<open>get_execution_log\<close> calls on a fresh engine, every node stored in the registry satisfies
  the validation predicate: its id and pattern are non-empty and its confidence lies in the
  closed interval from 0.0 to 1.0.
\<close>

theorem registry_holds_valid_nodes:
  "list_all (\<lambda>(k, n). spec_valid n) (shortcuts (fst (snd (run cs (CometEngine_init s)))))
   \<and> (\<forall>k n. map_of (shortcuts (fst (snd (run cs (CometEngine_init s))))) k = Some n
          \<longrightarrow> node_id n \<noteq> [] \<and> pattern n \<noteq> []
              \<and> confidence_in_unit_interval (confidence n))"
proof -
  obtain self s1 where init: "CometEngine_init s = (self, s1)" and "shortcuts self = []"
    by (simp add: CometEngine_init_def Let_def)
  then have "list_all (\<lambda>(k, n). spec_valid n) (shortcuts self)" by simp
  from run_stored_valid [OF this, of cs s1]
  have a: "list_all (\<lambda>(k, n). spec_valid n) (shortcuts (fst (snd (run cs (CometEngine_init s)))))"
    by (simp add: init)
  then show ?thesis
    by (auto simp: list_all_iff spec_valid_def dest!: map_of_SomeD)
qed

lemma run_calls_mixed_shortcuts:
  "shortcuts (fst (snd (run calls_mixed (CometEngine_init store0)))) = [(str ''a'', node_a)]"
  using node_a_valid node_bad_invalid
  by (simp add: calls_mixed_def CometEngine_init_def store0_def register_shortcut_def
      validate_spec_valid execute_shortcut_def get_execution_log_def Let_def node_a_def str_a
      split: prod.splits)

theorem registry_holds_valid_nodes_witness:
  "map_of (shortcuts (fst (snd (run calls_mixed (CometEngine_init store0))))) (str ''a'')
     = Some node_a
   \<and> node_id node_a \<noteq> [] \<and> pattern node_a \<noteq> []
   \<and> confidence_in_unit_interval (confidence node_a)"
proof -
  have m: "map_of (shortcuts (fst (snd (run calls_mixed (CometEngine_init store0))))) (str ''a'')
             = Some node_a"
    by (simp add: run_calls_mixed_shortcuts)
  with registry_holds_valid_nodes [of calls_mixed store0] show ?thesis
    by blast
qed

lemma step_log:
  assumes "step c (self, s) = (rep, self', s')"
  shows "execution_log self' = execution_log self \<and> schema_version self' = schema_version self
       \<and> length (lists s' (execution_log self))
           = length (lists s (execution_log self)) + (if succeeded rep then 1 else 0)
       \<and> (execution_log self < next_ref s \<longrightarrow> execution_log self < next_ref s')"
  using assms
  by (cases c)
     (auto simp: register_shortcut_def execute_shortcut_def get_execution_log_def Let_def
           split: prod.splits option.splits if_splits)

lemma run_log:
  assumes "run cs (self, s) = (reps, self', s')"
  shows "execution_log self' = execution_log self \<and> schema_version self' = schema_version self
       \<and> length (lists s' (execution_log self))
           = length (lists s (execution_log self)) + length (filter succeeded reps)
       \<and> (execution_log self < next_ref s \<longrightarrow> execution_log self < next_ref s')"
  using assms
proof (induction cs arbitrary: self s reps)
  case Nil
  then show ?case by simp
next
  case (Cons c cs)
  obtain rep self1 s1 where st: "step c (self, s) = (rep, self1, s1)"
    by (cases "step c (self, s)") auto
  obtain reps1 where r1: "run cs (self1, s1) = (reps1, self', s')" and reps: "reps = rep # reps1"
    using Cons.prems by (auto simp: st split: prod.splits)
  from step_log [OF st] Cons.IH [OF r1] show ?case
    by (simp add: reps)
qed


lemma run_from_init:
  assumes "run cs (CometEngine_init s0) = (reps, self, s)"
  shows "schema_version self = str ''1.0.0''
       \<and> length (lists s (execution_log self)) = length (filter succeeded reps)
       \<and> execution_log self < next_ref s"
proof -
  obtain self0 s1 where init: "CometEngine_init s0 = (self0, s1)"
    by (cases "CometEngine_init s0") auto
  then have i: "schema_version self0 = str ''1.0.0''" "lists s1 (execution_log self0) = []"
    "execution_log self0 < next_ref s1"
    by (auto simp: CometEngine_init_def Let_def)
  from run_log [OF assms [unfolded init]] i show ?thesis
    by simp
qed

text \<open>
  C5. On an engine reached from a fresh one by any calls, \<open>export_schema\<close> returns the schema
  version \<open>"1.0.0"\<close>, a \<open>shortcuts\<close> mapping with the keys of the registry in the same
  order that sends each id to the reduced view of its node (pattern, action, confidence,
  number of citations, metadata), and a \<open>total_executions\<close> that is the length of the log
  and the number of \<open>execute_shortcut\<close> calls that returned a record since the engine was
  created. The call changes neither the engine nor the store.
\<close>

theorem export_schema_contents:
  assumes "run cs (CometEngine_init s0) = (reps, self, s)"
  shows "exp_schema_version (export_schema self s) = str ''1.0.0''
       \<and> map fst (exp_shortcuts (export_schema self s)) = map fst (shortcuts self)
       \<and> map_of (exp_shortcuts (export_schema self s)) nid
           = map_option
               (\<lambda>node. \<lparr>view_pattern = pattern node, view_action = action node,
                         view_confidence = confidence node,
                         view_verified_citations = length (verified_citations node),
                         view_design_implications = design_implications node\<rparr>)
               (map_of (shortcuts self) nid)
       \<and> total_executions (export_schema self s) = length (filter succeeded reps)
       \<and> total_executions (export_schema self s) = length (lists s (execution_log self))
       \<and> step Export_schema (self, s) = (Exported (export_schema self s), self, s)"
proof -
  have v: "(\<lambda>(nid, node). (nid, view node)) = (\<lambda>(nid, node). (nid,
             \<lparr>view_pattern = pattern node, view_action = action node,
              view_confidence = confidence node,
              view_verified_citations = length (verified_citations node),
              view_design_implications = design_implications node\<rparr>))"
    by (simp add: view_def fun_eq_iff)
  have "map_of (exp_shortcuts (export_schema self s)) nid
           = map_option
               (\<lambda>node. \<lparr>view_pattern = pattern node, view_action = action node,
                         view_confidence = confidence node,
                         view_verified_citations = length (verified_citations node),
                         view_design_implications = design_implications node\<rparr>)
               (map_of (shortcuts self) nid)"
    by (simp add: export_schema_def v map_of_map)
  moreover have "map fst (exp_shortcuts (export_schema self s)) = map fst (shortcuts self)"
    by (simp add: export_schema_def case_prod_unfold)
  ultimately show ?thesis
    using run_from_init [OF assms] by (simp add: export_schema_def)
qed

lemma run_calls_mixed_replies:
  "map succeeded (fst (run calls_mixed (CometEngine_init store0)))
     = [False, True, False, False, False, False]"
  using node_a_valid node_bad_invalid
  by (simp add: calls_mixed_def CometEngine_init_def store0_def register_shortcut_def
      validate_spec_valid execute_shortcut_def get_execution_log_def Let_def node_a_def str_def
      split: prod.splits)

theorem export_schema_contents_witness:
  "map succeeded (fst (run calls_mixed (CometEngine_init store0)))
     = [False, True, False, False, False, False]
   \<and> total_executions
        (export_schema (fst (snd (run calls_mixed (CometEngine_init store0))))
           (snd (snd (run calls_mixed (CometEngine_init store0))))) = 1
   \<and> map_of (exp_shortcuts
        (export_schema (fst (snd (run calls_mixed (CometEngine_init store0))))
           (snd (snd (run calls_mixed (CometEngine_init store0)))))) (str ''a'')
       = Some \<lparr>view_pattern = str ''p'', view_action = str ''act'',
               view_confidence = Finite (9 / 10), view_verified_citations = 1,
               view_design_implications = ()\<rparr>"
proof -
  let ?R = "run calls_mixed (CometEngine_init store0)"
  have h: "?R = (fst ?R, fst (snd ?R), snd (snd ?R))" by simp
  have f: "length (filter succeeded (fst ?R)) = 1"
  proof -
    have "length (filter succeeded (fst ?R)) = length (filter id (map succeeded (fst ?R)))"
      by (simp add: filter_map comp_def)
    then show ?thesis by (simp add: run_calls_mixed_replies)
  qed
  from export_schema_contents [OF h, of "str ''a''"] f run_calls_mixed_replies show ?thesis
    by (simp add: run_calls_mixed_shortcuts node_a_def)
qed

section \<open>The copy of the log\<close>

text \<open>
  C7. When the log's list object is allocated (as it is in every state reached from a fresh
  engine, by \<open>run_from_init\<close>), \<open>get_execution_log\<close> returns a list object other than the
  log, with the same entries as the log. Whatever the caller then makes of the contents of
  the returned list (\<open>list_assign\<close>; appending an entry is \<open>list_append\<close>), the log keeps
  its entries, the result dicts are untouched, and the next \<open>get_execution_log\<close> returns the
  entries the first call returned, with the same contents.
\<close>

theorem get_execution_log_copy:
  assumes "execution_log self < next_ref s"
      and "get_execution_log self s = (r, s1)"
      and "get_execution_log self (list_assign r xs s1) = (r2, s2)"
  shows "lists s1 r = lists s (execution_log self)
       \<and> lists s1 (execution_log self) = lists s (execution_log self)
       \<and> r \<noteq> execution_log self
       \<and> lists (list_assign r xs s1) (execution_log self) = lists s (execution_log self)
       \<and> lists (list_append r x s1) (execution_log self) = lists s (execution_log self)
       \<and> dicts (list_assign r xs s1) = dicts s
       \<and> lists s2 r2 = lists s (execution_log self)
       \<and> map (dicts s2) (lists s2 r2) = map (dicts s) (lists s (execution_log self))"
  using assms
  by (auto simp: get_execution_log_def list_assign_def list_append_def Let_def)

text \<open>
  The copy is shallow: the entries of the returned list are the references held by the log,
  so a change made in place to an entry of the copy shows in the log's entry.
\<close>

lemma get_execution_log_shares_entries:
  assumes "get_execution_log self s = (r, s1)" and "i < length (lists s1 r)"
  shows "lists s1 r ! i = lists s (execution_log self) ! i
       \<and> dicts (dict_assign (lists s1 r ! i) d s1) (lists s (execution_log self) ! i) = Some d"
  using assms by (auto simp: get_execution_log_def dict_assign_def Let_def)

theorem get_execution_log_copy_witness:
  "execution_log (fst (snd (run calls_two (CometEngine_init store0))))
     < next_ref (snd (snd (run calls_two (CometEngine_init store0))))
   \<and> lists (snd (snd (run calls_two (CometEngine_init store0))))
        (execution_log (fst (snd (run calls_two (CometEngine_init store0))))) = [1]
   \<and> lists (list_append 2 7
        (snd (get_execution_log (fst (snd (run calls_two (CometEngine_init store0))))
               (snd (snd (run calls_two (CometEngine_init store0)))))))
        (execution_log (fst (snd (run calls_two (CometEngine_init store0))))) = [1]"
proof -
  let ?R = "run calls_two (CometEngine_init store0)"
  let ?e = "fst (snd ?R)" and ?s = "snd (snd ?R)"
  have R: "?R = (fst ?R, ?e, ?s)" by simp
  note i = run_from_init [OF R]
  have e: "execution_log ?e = 0" "next_ref ?s = 2" "lists ?s 0 = [1]"
    using node_a_valid
    by (simp_all add: calls_two_def CometEngine_init_def store0_def register_shortcut_def
      validate_spec_valid execute_shortcut_def Let_def node_a_def str_def
      split: prod.splits)
  have g: "get_execution_log ?e ?s = (2, snd (get_execution_log ?e ?s))"
    by (simp add: get_execution_log_def Let_def e)
  have g2: "get_execution_log ?e (list_assign 2 [] (snd (get_execution_log ?e ?s)))
     = (fst (get_execution_log ?e (list_assign 2 [] (snd (get_execution_log ?e ?s)))),
        snd (get_execution_log ?e (list_assign 2 [] (snd (get_execution_log ?e ?s)))))"
    by simp
  have lt: "execution_log ?e < next_ref ?s" using i by simp
  from get_execution_log_copy [OF lt g g2, of 7] lt e show ?thesis
    by simp
qed

section \<open>The digest and the citation helper\<close>

declare utf8_char.simps [simp del]

lemma utf8_char_ok:
  assumes "c < 0x110000" "\<not> surrogate c"
  shows "\<exists>bs. utf8_char c = Inr bs"
  using assms by (simp add: utf8_char.simps surrogate_def)

lemma utf8_char_error:
  assumes "\<not> (c < 0x110000 \<and> \<not> surrogate c)"
  shows "utf8_char c = Inl UnicodeEncodeError"
  using assms by (auto simp: utf8_char.simps surrogate_def)

lemma encode_utf8_ok: "well_formed_text content \<Longrightarrow> \<exists>bs. encode_utf8 content = Inr bs"
proof (induction content)
  case Nil
  then show ?case by simp
next
  case (Cons c cs)
  then obtain bs rest where "utf8_char c = Inr bs" "encode_utf8 cs = Inr rest"
    using utf8_char_ok [of c] by (auto simp: well_formed_text_def)
  then show ?case by simp
qed

lemma encode_utf8_error:
  "\<not> well_formed_text content \<Longrightarrow> encode_utf8 content = Inl UnicodeEncodeError"
proof (induction content)
  case Nil
  then show ?case by (simp add: well_formed_text_def)
next
  case (Cons c cs)
  show ?case
  proof (cases "c < 0x110000 \<and> \<not> surrogate c")
    case True
    with Cons.prems have "\<not> well_formed_text cs" by (simp add: well_formed_text_def)
    then have "encode_utf8 cs = Inl UnicodeEncodeError" by (rule Cons.IH)
    moreover from True obtain bs where "utf8_char c = Inr bs"
      using utf8_char_ok [of c] by blast
    ultimately show ?thesis by simp
  next
    case False
    then show ?thesis by (simp add: utf8_char_error)
  qed
qed

lemma length_be32: "length (be32 w) = 4"
  by (simp add: be32_def)

lemma length_digest_bytes: "length (digest_bytes hs) = 32"
  by (induction hs rule: digest_bytes.induct) (simp add: length_be32)

lemma length_sha256: "length (sha256 m) = 32"
  by (simp add: sha256_def length_digest_bytes)

lemma length_hexdigest: "length (hexdigest bs) = 2 * length bs"
  by (induction bs) (simp_all add: hexdigest_def hex_byte_def)

lemma lower_hex_hexdigits: "list_all (\<lambda>n. lower_hex (hexdigit n)) [0 ..< 16]"
  by code_simp

lemma lower_hex_hexdigit:
  assumes "n < 16"
  shows "lower_hex (hexdigit n)"
  using assms lower_hex_hexdigits by (simp add: list_all_iff)

lemma lower_hex_hex_byte: "list_all lower_hex (hex_byte b)"
proof -
  have "unat b < 256" using unsigned_less [of b, where ?'a = nat] by simp
  then have "unat b div 16 < 16" by simp
  moreover have "unat b mod 16 < 16" by simp
  ultimately show ?thesis by (simp add: hex_byte_def lower_hex_hexdigit)
qed

lemma lower_hex_hexdigest: "list_all lower_hex (hexdigest bs)"
  by (induction bs) (simp_all add: hexdigest_def lower_hex_hex_byte)

lemma sha256_hex_ok:
  assumes "well_formed_text content"
  shows "\<exists>h. sha256_hex content = Inr h \<and> length h = 64 \<and> list_all lower_hex h"
proof -
  from encode_utf8_ok [OF assms] obtain bs where "encode_utf8 content = Inr bs" ..
  then show ?thesis
    by (simp add: sha256_hex_def length_hexdigest length_sha256 lower_hex_hexdigest)
qed

lemma sha256_hex_error:
  "\<not> well_formed_text content \<Longrightarrow> sha256_hex content = Inl UnicodeEncodeError"
  by (simp add: sha256_hex_def encode_utf8_error)

lemma sha256_hex_nonempty: "sha256_hex content \<noteq> Inr []"
proof (cases "well_formed_text content")
  case True
  from sha256_hex_ok [OF this] show ?thesis by auto
next
  case False
  then show ?thesis by (simp add: sha256_hex_error)
qed

text \<open>The digest of the empty string, checked against the published test vector.\<close>

lemma sha256_hex_empty:
  "sha256_hex [] = Inr (str ''e3b0c44298fc1c149afbf4c8996fb92427ae41e4649b934ca495991b7852b855'')"
  by code_simp

text \<open>
  C6 (amended). The digest does not depend on the engine it is called on. For well-formed text
  (no surrogate code point) it is a string of exactly 64 lowercase hexadecimal characters;
  for any other string the call raises \<open>UnicodeEncodeError\<close>.
\<close>

theorem generate_content_hash_well_formed:
  "generate_content_hash self content = generate_content_hash self' content
   \<and> (well_formed_text content \<longrightarrow>
        (\<exists>h. generate_content_hash self content = Inr h \<and> length h = 64
            \<and> list_all lower_hex h))
   \<and> (\<not> well_formed_text content \<longrightarrow>
        generate_content_hash self content = Inl UnicodeEncodeError)"
  by (simp add: generate_content_hash_def sha256_hex_ok sha256_hex_error)

theorem generate_content_hash_well_formed_witness:
  "well_formed_text []
   \<and> generate_content_hash engine0 []
       = Inr (str ''e3b0c44298fc1c149afbf4c8996fb92427ae41e4649b934ca495991b7852b855'')
   \<and> length (str ''e3b0c44298fc1c149afbf4c8996fb92427ae41e4649b934ca495991b7852b855'') = 64
   \<and> list_all lower_hex (str ''e3b0c44298fc1c149afbf4c8996fb92427ae41e4649b934ca495991b7852b855'')"
proof -
  have wf: "well_formed_text []"
    by (simp add: well_formed_text_def)
  have g: "generate_content_hash engine0 []
       = Inr (str ''e3b0c44298fc1c149afbf4c8996fb92427ae41e4649b934ca495991b7852b855'')"
    by (simp add: generate_content_hash_def sha256_hex_empty)
  from generate_content_hash_well_formed [of engine0 "[]" engine0] wf g show ?thesis
    by auto
qed

text \<open>
  C6 as stated fails: the one-character string holding the code point \<open>U+D800\<close> is a
  Python \<open>str\<close>, and the call raises \<open>UnicodeEncodeError\<close> on it instead of returning
  64 characters.
\<close>

theorem generate_content_hash_surrogate:
  "(0xD800::nat) < 0x110000 \<and> generate_content_hash engine0 [0xD800] = Inl UnicodeEncodeError"
  by (simp add: generate_content_hash_def sha256_hex_def utf8_char.simps)

text \<open>
  C9 (amended). \<open>create_citation\<close> never fails with the \<open>ValueError\<close> of the citation
  constructor. For well-formed content (no surrogate code point) it succeeds: the content
  hash is the 64-character digest that \<open>generate_content_hash\<close> gives for the content, and
  source id, timestamp and method are the ones given (the method \<open>"sha256"\<close> by default).
  For any other content it raises \<open>UnicodeEncodeError\<close>.
\<close>

theorem create_citation_result:
  "create_citation sid content meth now \<noteq> Inl ValueError
   \<and> (well_formed_text content \<longrightarrow>
        (\<exists>cit. create_citation sid content meth now = Inr cit
            \<and> generate_content_hash self content = Inr (content_hash cit)
            \<and> length (content_hash cit) = 64
            \<and> source_id cit = sid \<and> timestamp cit = now
            \<and> verification_method cit = (case meth of None \<Rightarrow> str ''sha256'' | Some m \<Rightarrow> m)))
   \<and> (\<not> well_formed_text content \<longrightarrow>
        create_citation sid content meth now = Inl UnicodeEncodeError)"
proof (cases "well_formed_text content")
  case True
  from sha256_hex_ok [OF this] obtain h where
    h: "sha256_hex content = Inr h" "length h = 64" by blast
  then have "h \<noteq> []" by auto
  with h True show ?thesis
    by (simp add: create_citation_def VerifiedCitation_init_def generate_content_hash_def)
next
  case False
  then show ?thesis
    by (simp add: create_citation_def sha256_hex_error)
qed

theorem create_citation_result_witness:
  "well_formed_text []
   \<and> create_citation (str ''src'') [] None (str ''2025-01-01T00:00:00'')
       = Inr \<lparr>source_id = str ''src'',
              content_hash = str ''e3b0c44298fc1c149afbf4c8996fb92427ae41e4649b934ca495991b7852b855'',
              timestamp = str ''2025-01-01T00:00:00'',
              verification_method = str ''sha256''\<rparr>"
proof -
  have wf: "well_formed_text []"
    by (simp add: well_formed_text_def)
  have g: "generate_content_hash engine0 []
       = Inr (str ''e3b0c44298fc1c149afbf4c8996fb92427ae41e4649b934ca495991b7852b855'')"
    by (simp add: generate_content_hash_def sha256_hex_empty)
  from create_citation_result
         [of "str ''src''" "[]" None "str ''2025-01-01T00:00:00''" engine0] wf g
  show ?thesis
    by auto
qed

text \<open>
  C9 as stated fails: on the content holding the single code point \<open>U+D800\<close> the call
  raises \<open>UnicodeEncodeError\<close>.
\<close>

theorem create_citation_surrogate:
  "(0xD800::nat) < 0x110000
   \<and> create_citation (str ''src'') [0xD800] None (str ''t'') = Inl UnicodeEncodeError"
  by (simp add: create_citation_def sha256_hex_def utf8_char.simps)

end
